theory Spec2Isabelle
  imports Main "HOL-Library.Sublist"
begin

section \<open>Python values and string operations used by main.py\<close>

text \<open>
  A Python \<open>str\<close> is modelled as a \<open>string\<close> holding its UTF-8 bytes, so the emoji
  of the caption and of the replies are the byte sequences of their code points.
  An attribute of a scraped object is missing, \<open>None\<close>, or holds a value: the source
  reads them with \<open>hasattr\<close> and \<open>getattr\<close>, which tell the three apart.
\<close>

datatype error = AttributeError | ValueError | OverflowError | TelegramError | ScrapeFailure

datatype 'a attr = Absent | PyNone | Val 'a

definition lower_char :: "char \<Rightarrow> char" where
  "lower_char c =
     (case map_of (zip ''ABCDEFGHIJKLMNOPQRSTUVWXYZ'' ''abcdefghijklmnopqrstuvwxyz'') c of
        None \<Rightarrow> c
      | Some d \<Rightarrow> d)"

text \<open>
  \<open>str.lower()\<close> on the ASCII letters. The bytes of other code points are left as they
  are: the source only searches the lowered string for "video" and tests it for the
  endings ".mp4", ".mov" and ".webm", and lowering a code point outside ASCII yields none
  of the characters of these four strings next to each other.
\<close>

definition lower :: "string \<Rightarrow> string" where
  "lower s = map lower_char s"

definition endswith :: "string \<Rightarrow> string \<Rightarrow> bool" where
  "endswith s ext = suffix ext s"

definition startswith :: "string \<Rightarrow> string \<Rightarrow> bool" where
  "startswith s p = prefix p s"

text \<open>\<open>s.find(sub) != -1\<close>: \<open>sub\<close> occurs in \<open>s\<close>.\<close>

fun found :: "string \<Rightarrow> string \<Rightarrow> bool" where
  "found [] sub = (sub = [])"
| "found (c # cs) sub = (prefix sub (c # cs) \<or> found cs sub)"

text \<open>\<open>username.lstrip('@')\<close>\<close>

definition lstrip_at :: "string \<Rightarrow> string" where
  "lstrip_at s = dropWhile (\<lambda>c. c = CHR ''@'') s"

text \<open>
  The white space that \<open>str.strip()\<close> removes, each code point as its UTF-8 bytes:
  U+0009 to U+000D, U+001C to U+001F, U+0020, U+0085, U+00A0, U+1680, U+2000 to U+200A,
  U+2028, U+2029, U+202F, U+205F and U+3000.
\<close>

definition py_whitespace :: "string list" where
  "py_whitespace =
     map (\<lambda>b. [b])
       [CHR 0x09, CHR 0x0A, CHR 0x0B, CHR 0x0C, CHR 0x0D,
        CHR 0x1C, CHR 0x1D, CHR 0x1E, CHR 0x1F, CHR 0x20]
     @ [[CHR 0xC2, CHR 0x85], [CHR 0xC2, CHR 0xA0], [CHR 0xE1, CHR 0x9A, CHR 0x80]]
     @ map (\<lambda>b. [CHR 0xE2, CHR 0x80, b])
       [CHR 0x80, CHR 0x81, CHR 0x82, CHR 0x83, CHR 0x84, CHR 0x85, CHR 0x86, CHR 0x87,
        CHR 0x88, CHR 0x89, CHR 0x8A, CHR 0xA8, CHR 0xA9, CHR 0xAF]
     @ [[CHR 0xE2, CHR 0x81, CHR 0x9F], [CHR 0xE3, CHR 0x80, CHR 0x80]]"

text \<open>The length of the white-space code point a string starts with, 0 when it starts with none.\<close>

definition space_len :: "string list \<Rightarrow> string \<Rightarrow> nat" where
  "space_len ws s =
     (case find (\<lambda>w. w \<noteq> [] \<and> prefix w s) ws of None \<Rightarrow> 0 | Some w \<Rightarrow> length w)"

lemma space_len_pos: "space_len ws s \<noteq> 0 \<Longrightarrow> s \<noteq> []"
  by (auto simp: space_len_def find_Some_iff split: option.splits)

function lstrip_ws :: "string list \<Rightarrow> string \<Rightarrow> string" where
  "lstrip_ws ws s =
     (if space_len ws s = 0 then s else lstrip_ws ws (drop (space_len ws s) s))"
  by pat_completeness auto
termination
proof (relation "measure (\<lambda>(ws, s). length s)")
  show "wf (measure (\<lambda>(ws, s). length s))" by simp
next
  fix ws :: "string list" and s :: string
  assume "space_len ws s \<noteq> 0"
  then have "s \<noteq> []" "0 < space_len ws s"
    using space_len_pos by auto
  then show "((ws, drop (space_len ws s) s), (ws, s)) \<in> measure (\<lambda>(ws, s). length s)"
    by (cases s) auto
qed

declare lstrip_ws.simps [simp del]

text \<open>\<open>s.strip()\<close>: white space removed at both ends.\<close>

definition strip :: "string \<Rightarrow> string" where
  "strip s = rev (lstrip_ws (map rev py_whitespace) (rev (lstrip_ws py_whitespace s)))"

text \<open>\<open>str(n)\<close> for an integer: its decimal digits, with a minus sign when negative.\<close>

fun digits :: "nat \<Rightarrow> string" where
  "digits n =
     (if n < 10 then [''0123456789'' ! n]
      else digits (n div 10) @ [''0123456789'' ! (n mod 10)])"

declare digits.simps [simp del]

definition str_int :: "int \<Rightarrow> string" where
  "str_int i = (if i < 0 then CHR ''-'' # digits (nat (- i)) else digits (nat i))"

section \<open>The scraped post and the media normalizer\<close>

text \<open>
  A media element of a scraped post: the name of its class and the attributes that
  \<open>extract_media_from_tweet\<close> probes (\<open>fullUrl\<close>, \<open>previewUrl\<close>, \<open>url\<close>, \<open>type\<close>).
\<close>

record medium =
  class_name :: string
  fullUrl :: "string attr"
  previewUrl :: "string attr"
  url :: "string attr"
  type_attr :: "string attr"

text \<open>The post: the attributes \<open>id\<close>, \<open>content\<close> and \<open>media\<close> that the poll loop reads.\<close>

record tweet =
  id_attr :: "int attr"
  content :: "string attr"
  media :: "medium list attr"

text \<open>An entry of the normalized list, the dict \<open>{"type": mtype, "url": url}\<close>.\<close>

record media_item =
  mtype :: string
  item_url :: string

text \<open>\<open>hasattr(m, f) and m.f\<close>: the attribute is there and is a non-empty string.\<close>

fun truthy :: "string attr \<Rightarrow> string option" where
  "truthy (Val s) = (if s \<noteq> [] then Some s else None)"
| "truthy _ = None"

text \<open>The \<open>if\<close>/\<open>elif\<close>/\<open>elif\<close> chain that sets \<open>url\<close>; \<open>None\<close> when no branch is taken.\<close>

definition resolve_url :: "medium \<Rightarrow> string option" where
  "resolve_url m =
     (case truthy (fullUrl m) of
        Some u \<Rightarrow> Some u
      | None \<Rightarrow>
         (case truthy (previewUrl m) of
            Some u \<Rightarrow> Some u
          | None \<Rightarrow> truthy (url m)))"

text \<open>One pass of the body of the \<open>for m in tweet.media\<close> loop over \<open>media_list\<close>.\<close>

definition media_step :: "media_item list \<Rightarrow> medium \<Rightarrow> media_item list" where
  "media_step media_list m =
     (let mtype0 = ''photo'';
          mtype1 = (if found (lower (class_name m)) ''video'' \<or> type_attr m = Val ''video''
                    then ''video'' else mtype0)
      in case resolve_url m of
           None \<Rightarrow> media_list
         | Some u \<Rightarrow>
             (let mtype2 = (if list_ex (\<lambda>ext. endswith (lower u) ext)
                                 [''.mp4'', ''.mov'', ''.webm'']
                            then ''video'' else mtype1)
              in media_list @ [\<lparr>mtype = mtype2, item_url = u\<rparr>]))"

definition extract_media_from_tweet :: "tweet \<Rightarrow> media_item list" where
  "extract_media_from_tweet tw =
     (case media tw of
        Val ms \<Rightarrow> (if ms \<noteq> [] then foldl media_step [] ms else [])
      | _ \<Rightarrow> [])"

subsection \<open>The normalizer as the specification words it\<close>

text \<open>The media list of the source post, empty when the post has none.\<close>

definition media_elements :: "tweet \<Rightarrow> medium list" where
  "media_elements tw = (case media tw of Val ms \<Rightarrow> ms | _ \<Rightarrow> [])"

text \<open>The values a field holds: one when it is populated, none when it is missing or \<open>None\<close>.\<close>

fun field_values :: "string attr \<Rightarrow> string list" where
  "field_values (Val s) = [s]"
| "field_values _ = []"

text \<open>
  The specification's resolution: the full-resolution field, then the preview field,
  then the generic url field, the first non-empty value winning.
\<close>

definition spec_resolve :: "medium \<Rightarrow> string option" where
  "spec_resolve m =
     find (\<lambda>s. s \<noteq> []) (concat (map field_values [fullUrl m, previewUrl m, url m]))"

text \<open>The explicit type signal: the class is a video class, or the type tag says video.\<close>

definition explicit_video :: "medium \<Rightarrow> bool" where
  "explicit_video m = (found (lower (class_name m)) ''video'' \<or> type_attr m = Val ''video'')"

definition video_extension :: "string \<Rightarrow> bool" where
  "video_extension u =
     (endswith (lower u) ''.mp4'' \<or> endswith (lower u) ''.mov'' \<or> endswith (lower u) ''.webm'')"

text \<open>The specification's classification of an element whose URL resolved to \<open>u\<close>.\<close>

definition spec_kind :: "medium \<Rightarrow> string \<Rightarrow> string" where
  "spec_kind m u =
     (if explicit_video m then ''video''
      else if video_extension u then ''video''
      else ''photo'')"

section \<open>Configuration, marker map and the outside world\<close>

text \<open>
  The configuration document \<open>config.json\<close> with the four keys of its default value.
\<close>

record config =
  twitter_accounts :: "string list"
  interval_minutes :: int
  telegram_channel :: "string option"
  paused :: bool

text \<open>\<open>InputMediaPhoto(p)\<close>: the photo and its caption, \<open>None\<close> until one is set.\<close>

record input_media_photo =
  photo :: string
  caption :: "string option"

text \<open>
  The calls of the bot's methods \<open>send_message\<close>, \<open>send_photo\<close>, \<open>send_media_group\<close>
  and \<open>send_video\<close>, each with its \<open>chat_id\<close> first.
\<close>

datatype call =
    SendMessage "string option" string
  | SendPhoto "string option" string string
  | SendMediaGroup "string option" "input_media_photo list"
  | SendVideo "string option" string

text \<open>The records written to the logger, one constructor for each message of the source.\<close>

datatype log_entry =
    CrawlerPaused
  | CheckingAccounts nat
  | ChannelNotSet
  | ScrapeError string error
  | FailedToSendText error
  | FailedToSendMedia error
  | ErrorInCheckLoop error

text \<open>
  What the process does to the outside world, in order: a run of the scraper for a user
  name, a call of a bot method, a log record, a sleep of so many seconds.
\<close>

datatype event = Fetch string | Call call | Log log_entry | Sleep int

text \<open>
  The outside world answers as a function of everything that happened so far: what the
  scraper yields for a user name (or the exception it raises), and whether a call of a
  bot method raises. The source calls the bot methods without awaiting what they return;
  a world in which no call raises is the bot of the program itself.
\<close>

record world =
  get_items :: "event list \<Rightarrow> string \<Rightarrow> error + tweet list"
  bot_raises :: "event list \<Rightarrow> call \<Rightarrow> error option"

text \<open>
  The process state: the globals \<open>config\<close> and \<open>cache\<close>, the two files that
  \<open>save_json\<close> rewrites (\<open>None\<close> while a file is absent), and the events so far.
  Writing a file is taken to succeed. Each function of the source is run on its own: the
  command handlers that the event loop may run while the poll loop awaits are not
  interleaved with it.
\<close>

record state =
  config :: config
  cache :: "string \<rightharpoonup> string"
  config_file :: "config option"
  cache_file :: "(string \<rightharpoonup> string) option"
  trace :: "event list"

definition emit :: "event \<Rightarrow> state \<Rightarrow> state" where
  "emit e st = st\<lparr>trace := trace st @ [e]\<rparr>"

text \<open>A call of a bot method: the exception it raises, if any, and the state after it.\<close>

definition bot_call :: "world \<Rightarrow> call \<Rightarrow> state \<Rightarrow> error option \<times> state" where
  "bot_call w c st = (bot_raises w (trace st) c, emit (Call c) st)"

section \<open>The delivery gateway\<close>

definition send_text :: "world \<Rightarrow> string option \<Rightarrow> string \<Rightarrow> state \<Rightarrow> state" where
  "send_text w channel text st =
     (case bot_call w (SendMessage channel text) st of
        (None, st1) \<Rightarrow> st1
      | (Some e, st1) \<Rightarrow> emit (Log (FailedToSendText e)) st1)"

text \<open>
  The \<open>if photos:\<close> block of \<open>send_media\<close>. With several photos the source builds the
  list of \<open>InputMediaPhoto\<close> objects and then assigns to the \<open>caption\<close> attribute of the
  first. The objects of the library are immutable (python-telegram-bot from version 20,
  the versions that have \<open>ApplicationBuilder\<close>): the assignment raises \<open>AttributeError\<close>,
  and \<open>bot.send_media_group\<close> is not reached.
\<close>

definition send_photos ::
  "world \<Rightarrow> string option \<Rightarrow> string list \<Rightarrow> string \<Rightarrow> state \<Rightarrow> error option \<times> state" where
  "send_photos w channel photos cap st =
     (if photos \<noteq> [] then
        (if length photos = 1 then bot_call w (SendPhoto channel (photos ! 0) cap) st
         else (Some AttributeError, st))
      else (None, st))"

text \<open>The \<open>for v in videos\<close> loop: it ends at the first call that raises.\<close>

fun send_videos ::
  "world \<Rightarrow> string option \<Rightarrow> string list \<Rightarrow> state \<Rightarrow> error option \<times> state" where
  "send_videos w channel [] st = (None, st)"
| "send_videos w channel (v # vs) st =
     (case bot_call w (SendVideo channel v) st of
        (None, st1) \<Rightarrow> send_videos w channel vs st1
      | (Some e, st1) \<Rightarrow> (Some e, st1))"

text \<open>The body of the \<open>try\<close> of \<open>send_media\<close>: the exception that leaves it, if any.\<close>

definition send_media_try ::
  "world \<Rightarrow> string option \<Rightarrow> media_item list \<Rightarrow> string \<Rightarrow> state \<Rightarrow> error option \<times> state" where
  "send_media_try w channel media_urls cap st =
     (if media_urls = [] then
        (None, if cap \<noteq> [] then send_text w channel cap st else st)
      else
        (let photos = map item_url (filter (\<lambda>m. mtype m = ''photo'') media_urls);
             videos = map item_url (filter (\<lambda>m. mtype m = ''video'') media_urls)
         in case send_photos w channel photos cap st of
              (Some e, st1) \<Rightarrow> (Some e, st1)
            | (None, st1) \<Rightarrow>
               (case (if videos \<noteq> [] then send_videos w channel videos st1 else (None, st1)) of
                  (Some e, st2) \<Rightarrow> (Some e, st2)
                | (None, st2) \<Rightarrow>
                   (None, if photos = [] \<and> videos = [] \<and> cap \<noteq> []
                          then send_text w channel cap st2 else st2))))"

definition send_media ::
  "world \<Rightarrow> string option \<Rightarrow> media_item list \<Rightarrow> string \<Rightarrow> state \<Rightarrow> state" where
  "send_media w channel media_urls cap st =
     (case send_media_try w channel media_urls cap st of
        (None, st1) \<Rightarrow> st1
      | (Some e, st1) \<Rightarrow> emit (Log (FailedToSendMedia e)) st1)"

definition send_to_channel_text_only :: "world \<Rightarrow> string \<Rightarrow> state \<Rightarrow> state" where
  "send_to_channel_text_only w text st =
     (let channel = telegram_channel (config st)
      in if channel = None \<or> channel = Some [] then emit (Log ChannelNotSet) st
         else send_text w channel text st)"

section \<open>The scraper and the poll loop\<close>

definition get_latest_tweet_sync :: "world \<Rightarrow> string \<Rightarrow> state \<Rightarrow> tweet option \<times> state" where
  "get_latest_tweet_sync w username st =
     (let uname = lstrip_at username;
          st1 = emit (Fetch uname) st
      in case get_items w (trace st) uname of
           Inl e \<Rightarrow> (None, emit (Log (ScrapeError username e)) st1)
         | Inr [] \<Rightarrow> (None, st1)
         | Inr (tweet # _) \<Rightarrow> (Some tweet, st1))"

text \<open>\<open>tid = str(getattr(tweet, "id", None))\<close>\<close>

definition tweet_id :: "tweet \<Rightarrow> string" where
  "tweet_id tw = (case id_attr tw of Val n \<Rightarrow> str_int n | _ \<Rightarrow> ''None'')"

text \<open>
  \<open>text = getattr(tweet, "content", "").strip()\<close>: a missing attribute reads as the
  empty string, and \<open>None\<close> has no \<open>strip\<close>.
\<close>

definition tweet_text :: "tweet \<Rightarrow> error + string" where
  "tweet_text tw =
     (case content tw of
        Absent \<Rightarrow> Inr (strip [])
      | PyNone \<Rightarrow> Inl AttributeError
      | Val s \<Rightarrow> Inr (strip s))"

text \<open>The thread emoji U+1F9F5 and the words that open the caption.\<close>

definition caption_header :: string where
  "caption_header = [CHR 0xF0, CHR 0x9F, CHR 0xA7, CHR 0xB5] @ '' New tweet from ''"

definition new_tweet_caption :: "string \<Rightarrow> string \<Rightarrow> string" where
  "new_tweet_caption acc text =
     (if text \<noteq> [] then caption_header @ acc @ '':'' @ [CHR 0x0A, CHR 0x0A] @ text
      else caption_header @ acc)"

text \<open>
  The body of the \<open>for acc in accounts\<close> loop: the exception that leaves it, if any, and
  the state at that point.
\<close>

definition process_account :: "world \<Rightarrow> string \<Rightarrow> state \<Rightarrow> error option \<times> state" where
  "process_account w acc st =
     (case get_latest_tweet_sync w acc st of
        (None, st1) \<Rightarrow> (None, st1)
      | (Some tweet, st1) \<Rightarrow>
          (let tid = tweet_id tweet;
               last = cache st1 acc
           in if last \<noteq> Some tid then
                (case tweet_text tweet of
                   Inl e \<Rightarrow> (Some e, st1)
                 | Inr text \<Rightarrow>
                     (let cap = new_tweet_caption acc text;
                          media = extract_media_from_tweet tweet;
                          channel = telegram_channel (config st1);
                          st2 = (if media \<noteq> [] then send_media w channel media cap st1
                                 else send_text w channel cap st1);
                          st3 = st2\<lparr>cache := (cache st2)(acc \<mapsto> tid)\<rparr>;
                          st4 = st3\<lparr>cache_file := Some (cache st3)\<rparr>
                      in (None, st4)))
              else (None, st1)))"

fun for_accounts :: "world \<Rightarrow> string list \<Rightarrow> state \<Rightarrow> error option \<times> state" where
  "for_accounts w [] st = (None, st)"
| "for_accounts w (acc # accs) st =
     (case process_account w acc st of
        (None, st1) \<Rightarrow> for_accounts w accs st1
      | (Some e, st1) \<Rightarrow> (Some e, st1))"

text \<open>\<open>list(dict.fromkeys(xs))\<close>: the first occurrence of each element, in order.\<close>

fun fromkeys :: "string list \<Rightarrow> string list \<Rightarrow> string list" where
  "fromkeys seen [] = []"
| "fromkeys seen (x # xs) =
     (if x \<in> set seen then fromkeys seen xs else x # fromkeys (x # seen) xs)"

text \<open>The \<open>try\<close> block of one iteration of \<open>while True\<close>.\<close>

definition check_try :: "world \<Rightarrow> state \<Rightarrow> error option \<times> state" where
  "check_try w st =
     (if paused (config st) then (None, emit (Log CrawlerPaused) st)
      else
        (let accounts = fromkeys [] (twitter_accounts (config st));
             st1 = emit (Log (CheckingAccounts (length accounts))) st
         in for_accounts w accounts st1))"

text \<open>
  \<open>asyncio.sleep(delay)\<close> with an integer delay: the event loop adds the delay to its
  clock, a float, and an integer that rounds to \<open>2 ^ 1024\<close> or more has no float:
  \<open>OverflowError\<close> is raised. The least such integer is \<open>2 ^ 1024 - 2 ^ 970\<close>.
\<close>

definition float_limit :: int where
  "float_limit = 2 ^ 1024 - 2 ^ 970"

definition sleep :: "int \<Rightarrow> state \<Rightarrow> error option \<times> state" where
  "sleep delay st =
     (if float_limit \<le> delay then (Some OverflowError, st) else (None, emit (Sleep delay) st))"

text \<open>
  One iteration: the \<open>try\<close>, its \<open>except Exception\<close>, and the sleep, which is outside
  the \<open>try\<close>: the exception that leaves the iteration, if any.
\<close>

definition check_cycle :: "world \<Rightarrow> state \<Rightarrow> error option \<times> state" where
  "check_cycle w st =
     (let st1 = (case check_try w st of
                   (None, st') \<Rightarrow> st'
                 | (Some e, st') \<Rightarrow> emit (Log (ErrorInCheckLoop e)) st')
      in sleep (max 30 (interval_minutes (config st1) * 60)) st1)"

text \<open>
  \<open>check_for_new_tweets\<close> has no exit of its own: its first \<open>n\<close> iterations, or fewer
  when an exception leaves one of them and ends the task.
\<close>

fun check_for_new_tweets :: "world \<Rightarrow> nat \<Rightarrow> state \<Rightarrow> error option \<times> state" where
  "check_for_new_tweets w 0 st = (None, st)"
| "check_for_new_tweets w (Suc n) st =
     (case check_cycle w st of
        (None, st1) \<Rightarrow> check_for_new_tweets w n st1
      | (Some e, st1) \<Rightarrow> (Some e, st1))"

section \<open>Command handlers\<close>

text \<open>The check mark U+2705 that opens the confirmations.\<close>

definition check_mark :: string where
  "check_mark = [CHR 0xE2, CHR 0x9C, CHR 0x85]"

text \<open>A handler takes \<open>context.args\<close> and returns the new state and the reply it sends.\<close>

definition cmd_add :: "string list \<Rightarrow> state \<Rightarrow> state \<times> string" where
  "cmd_add args st =
     (if args = [] then (st, ''Usage: /add @username'')
      else
        (let acc0 = args ! 0;
             acc = (if \<not> startswith acc0 ''@'' then ''@'' @ acc0 else acc0)
         in if acc \<in> set (twitter_accounts (config st)) then (st, acc @ '' already tracked'')
            else
              (let st1 = st\<lparr>config := (config st)
                              \<lparr>twitter_accounts := twitter_accounts (config st) @ [acc]\<rparr>\<rparr>;
                   st2 = st1\<lparr>config_file := Some (config st1)\<rparr>
               in (st2, check_mark @ '' Added '' @ acc))))"

text \<open>
  \<open>int(s)\<close>, as CPython computes it. What depends on the interpreter is a parameter: the
  decimal value that its Unicode database gives to a code point outside ASCII (the code
  point as its UTF-8 bytes; none when it is not a decimal digit), and the greatest number
  of digits that it converts (0 for no limit, 4300 unless the interpreter is told
  otherwise).
\<close>

record interpreter =
  unicode_decimal :: "string \<Rightarrow> nat option"
  max_str_digits :: nat

text \<open>The number of bytes of the code point that a byte starts.\<close>

definition cp_len :: "char \<Rightarrow> nat" where
  "cp_len b =
     (if (of_char b :: nat) < 0xC0 then 1
      else if (of_char b :: nat) < 0xE0 then 2
      else if (of_char b :: nat) < 0xF0 then 3
      else 4)"

function code_points :: "string \<Rightarrow> string list" where
  "code_points s =
     (if s = [] then [] else take (cp_len (hd s)) s # code_points (drop (cp_len (hd s)) s))"
  by pat_completeness auto
termination
  by (relation "measure length") (auto simp: cp_len_def)

declare code_points.simps [simp del]

text \<open>
  The first step of \<open>int\<close> turns every code point into an ASCII character: a code point
  below 127 is kept, white space outside ASCII becomes a space (the white space of one
  byte in \<open>py_whitespace\<close> is met by the first case), a decimal digit of any script
  becomes the ASCII digit of its value, and anything else becomes a question mark, which
  no number contains.
\<close>

definition ascii_of :: "(string \<Rightarrow> nat option) \<Rightarrow> string \<Rightarrow> char" where
  "ascii_of decimal cp =
     (case cp of
        [b] \<Rightarrow> (if (of_char b :: nat) < 127 then b else CHR ''?'')
      | _ \<Rightarrow>
         (if cp \<in> set py_whitespace then CHR '' ''
          else
            (case decimal cp of
               None \<Rightarrow> CHR ''?''
             | Some d \<Rightarrow> (if d < 10 then ''0123456789'' ! d else CHR ''?''))))"

text \<open>The white space that the parser of the ASCII text skips at both ends.\<close>

definition c_space :: "char \<Rightarrow> bool" where
  "c_space c = (c \<in> set [CHR 0x20, CHR 0x09, CHR 0x0A, CHR 0x0B, CHR 0x0C, CHR 0x0D])"

definition is_digit :: "char \<Rightarrow> bool" where
  "is_digit c = (c \<in> set ''0123456789'')"

definition digit_val :: "char \<Rightarrow> int" where
  "digit_val c = int (length (takeWhile (\<lambda>d. d \<noteq> c) ''0123456789''))"

text \<open>Decimal digits in groups separated by single underscores.\<close>

fun digits_ok :: "string \<Rightarrow> bool" where
  "digits_ok [] = False"
| "digits_ok [c] = is_digit c"
| "digits_ok (c # d # cs) =
     (is_digit c \<and> (if d = CHR ''_'' then digits_ok cs else digits_ok (d # cs)))"

text \<open>
  The second step: white space, an optional sign, the digits, white space. \<open>None\<close> stands
  for the \<open>ValueError\<close> that \<open>int\<close> raises on anything else, and on more digits than the
  interpreter converts.
\<close>

definition py_int :: "interpreter \<Rightarrow> string \<Rightarrow> int option" where
  "py_int I s =
     (let a = map (ascii_of (unicode_decimal I)) (code_points s);
          t = dropWhile c_space a;
          neg = (t \<noteq> [] \<and> hd t = CHR ''-'');
          u = (if t \<noteq> [] \<and> (hd t = CHR ''-'' \<or> hd t = CHR ''+'') then tl t else t);
          body = rev (dropWhile c_space (rev u));
          n = length (filter is_digit body)
      in if digits_ok body \<and> (max_str_digits I = 0 \<or> n \<le> max_str_digits I)
         then Some ((if neg then - 1 else 1)
                    * foldl (\<lambda>a c. 10 * a + digit_val c) 0 (filter is_digit body))
         else None)"

definition cmd_setinterval :: "interpreter \<Rightarrow> string list \<Rightarrow> state \<Rightarrow> state \<times> string" where
  "cmd_setinterval I args st =
     (if args = [] then (st, ''Usage: /setinterval N (minutes)'')
      else
        (case py_int I (args ! 0) of
           None \<Rightarrow> (st, ''Invalid number'')
         | Some n \<Rightarrow>
             (let st1 = st\<lparr>config := (config st)\<lparr>interval_minutes := max 1 n\<rparr>\<rparr>;
                  st2 = st1\<lparr>config_file := Some (config st1)\<rparr>
              in (st2, check_mark @ '' Interval set to '' @ str_int n @ '' minutes''))))"

section \<open>Reading the trace\<close>

fun calls_of :: "event list \<Rightarrow> call list" where
  "calls_of [] = []"
| "calls_of (Call c # es) = c # calls_of es"
| "calls_of (_ # es) = calls_of es"

fun fetches_of :: "event list \<Rightarrow> string list" where
  "fetches_of [] = []"
| "fetches_of (Fetch u # es) = u # fetches_of es"
| "fetches_of (_ # es) = fetches_of es"

fun logs_of :: "event list \<Rightarrow> log_entry list" where
  "logs_of [] = []"
| "logs_of (Log l # es) = l # logs_of es"
| "logs_of (_ # es) = logs_of es"

fun sleeps_of :: "event list \<Rightarrow> int list" where
  "sleeps_of [] = []"
| "sleeps_of (Sleep n # es) = n # sleeps_of es"
| "sleeps_of (_ # es) = sleeps_of es"

section \<open>Expected behaviour, in the words of the specification\<close>

text \<open>The normalized entry of a media element, none when no URL resolves.\<close>

definition normalized :: "medium \<Rightarrow> media_item option" where
  "normalized m = map_option (\<lambda>u. \<lparr>mtype = spec_kind m u, item_url = u\<rparr>) (spec_resolve m)"

text \<open>
  The photo handling of a delivery: nothing without photos, one single-photo send with
  the caption for one photo, one grouped send with the caption on the first item only
  for several.
\<close>

definition photo_calls :: "string option \<Rightarrow> string list \<Rightarrow> string \<Rightarrow> call list" where
  "photo_calls ch photos cap =
     (case photos of
        [] \<Rightarrow> []
      | [p] \<Rightarrow> [SendPhoto ch p cap]
      | p # ps \<Rightarrow>
          [SendMediaGroup ch (\<lparr>photo = p, caption = Some cap\<rparr>
                              # map (\<lambda>q. \<lparr>photo = q, caption = None\<rparr>) ps)])"

text \<open>
  The calls of a delivery of a non-empty media list: the photo handling, then one send
  for each video, without caption; the caption as a text message when there are neither
  photos nor videos and the caption is not empty.
\<close>

definition spec_calls :: "string option \<Rightarrow> media_item list \<Rightarrow> string \<Rightarrow> call list" where
  "spec_calls ch media_urls cap =
     (let photos = map item_url (filter (\<lambda>m. mtype m = ''photo'') media_urls);
          videos = map item_url (filter (\<lambda>m. mtype m = ''video'') media_urls)
      in photo_calls ch photos cap @ map (SendVideo ch) videos
         @ (if photos = [] \<and> videos = [] \<and> cap \<noteq> [] then [SendMessage ch cap] else []))"

text \<open>The caption as the specification quotes it, the header alone for an empty text.\<close>

definition spec_caption :: "string \<Rightarrow> string \<Rightarrow> string" where
  "spec_caption account t =
     (if t \<noteq> [] then ''New post from '' @ account @ '':'' @ [CHR 0x0A, CHR 0x0A] @ t
      else ''New post from '' @ account @ '':'')"

subsection \<open>The two halves of the new-post branch of the poll loop\<close>

text \<open>The delivery: \<open>send_media\<close> when the post has media, \<open>send_text\<close> otherwise.\<close>

definition deliver ::
  "world \<Rightarrow> string option \<Rightarrow> media_item list \<Rightarrow> string \<Rightarrow> state \<Rightarrow> state" where
  "deliver w channel media_urls cap st =
     (if media_urls \<noteq> [] then send_media w channel media_urls cap st
      else send_text w channel cap st)"

text \<open>\<open>cache[acc] = tid\<close> followed by \<open>save_json(CACHE_FILE, cache)\<close>.\<close>

definition save_marker :: "string \<Rightarrow> string \<Rightarrow> state \<Rightarrow> state" where
  "save_marker acc tid st =
     (let st1 = st\<lparr>cache := (cache st)(acc \<mapsto> tid)\<rparr> in st1\<lparr>cache_file := Some (cache st1)\<rparr>)"

text \<open>
  Two states with the same configuration, marker map and files, the same runs of the
  scraper and the same sleeps: what a delivery leaves as it was.
\<close>

definition same_store :: "state \<Rightarrow> state \<Rightarrow> bool" where
  "same_store st st' =
     (config st' = config st \<and> cache st' = cache st \<and> config_file st' = config_file st
      \<and> cache_file st' = cache_file st \<and> fetches_of (trace st') = fetches_of (trace st)
      \<and> sleeps_of (trace st') = sleeps_of (trace st))"

subsection \<open>Concrete posts, worlds and states\<close>

text \<open>
  A post with six media elements: a photo with both a full and a preview URL, a video
  object with none of the three URL fields, an element whose only populated field is the
  generic one and ends in an upper-case video extension, a video object with a preview
  URL, an element tagged as video, and a plain picture.
\<close>

definition example_tweet :: tweet where
  "example_tweet =
     \<lparr>id_attr = Val 7, content = Val ''hi'',
      media = Val
        [\<lparr>class_name = ''Photo'', fullUrl = Val ''https://x/a.jpg'',
          previewUrl = Val ''https://x/a_small.jpg'', url = Absent, type_attr = Absent\<rparr>,
         \<lparr>class_name = ''Video'', fullUrl = Absent, previewUrl = Absent, url = Absent,
          type_attr = Absent\<rparr>,
         \<lparr>class_name = ''Medium'', fullUrl = Val [], previewUrl = PyNone,
          url = Val ''https://x/c.MP4'', type_attr = Absent\<rparr>,
         \<lparr>class_name = ''Video'', fullUrl = Absent, previewUrl = Val ''https://x/d'',
          url = Absent, type_attr = Absent\<rparr>,
         \<lparr>class_name = ''Medium'', fullUrl = Absent, previewUrl = Absent,
          url = Val ''https://x/e'', type_attr = Val ''video''\<rparr>,
         \<lparr>class_name = ''Medium'', fullUrl = Absent, previewUrl = Absent,
          url = Val ''https://x/f.png'', type_attr = Absent\<rparr>]\<rparr>"

text \<open>A post of text only, with white space around the text, and one whose content is \<open>None\<close>.\<close>

definition nasa_tweet :: tweet where
  "nasa_tweet = \<lparr>id_attr = Val 100, content = Val ''  hello '', media = Absent\<rparr>"

definition broken_tweet :: tweet where
  "broken_tweet = \<lparr>id_attr = Val 1, content = PyNone, media = Absent\<rparr>"

definition base_config :: config where
  "base_config = \<lparr>twitter_accounts = [''@nasa'', ''@esa''], interval_minutes = 3,
                   telegram_channel = Some ''@chan'', paused = False\<rparr>"

text \<open>The first run: no marker, no file. Then a marker newer than the post, and no channel.\<close>

definition start_state :: state where
  "start_state = \<lparr>config = base_config, cache = Map.empty, config_file = None,
                   cache_file = None, trace = []\<rparr>"

definition later_state :: state where
  "later_state = start_state\<lparr>cache := [''@nasa'' \<mapsto> ''200'']\<rparr>"

definition unset_state :: state where
  "unset_state = start_state\<lparr>config := base_config\<lparr>telegram_channel := None\<rparr>\<rparr>"

text \<open>
  A world where every bot call raises and the scraper fails for every account but one; a
  world where nothing fails; a world whose first account has the post without content.
\<close>

definition failing_world :: world where
  "failing_world =
     \<lparr>get_items = (\<lambda>h u. if u = ''nasa'' then Inr [nasa_tweet] else Inl ScrapeFailure),
      bot_raises = (\<lambda>h c. Some TelegramError)\<rparr>"

definition quiet_world :: world where
  "quiet_world =
     \<lparr>get_items = (\<lambda>h u. if u = ''nasa'' then Inr [nasa_tweet] else Inr []),
      bot_raises = (\<lambda>h c. None)\<rparr>"

definition broken_world :: world where
  "broken_world =
     \<lparr>get_items = (\<lambda>h u. if u = ''nasa'' then Inr [broken_tweet] else Inr [nasa_tweet]),
      bot_raises = (\<lambda>h c. None)\<rparr>"

text \<open>
  An interpreter whose Unicode database is cut down to the fullwidth digits U+FF10 to
  U+FF19, with the usual limit of 4300 digits; the number 12 in fullwidth digits; a
  number of 311 digits.
\<close>

definition fullwidth_digits :: "string \<Rightarrow> nat option" where
  "fullwidth_digits cp =
     (case cp of
        [b1, b2, b3] \<Rightarrow>
          (if b1 = CHR 0xEF \<and> b2 = CHR 0xBC \<and> 0x90 \<le> (of_char b3 :: nat)
              \<and> (of_char b3 :: nat) \<le> 0x99
           then Some (of_char b3 - 0x90) else None)
      | _ \<Rightarrow> None)"

definition example_interpreter :: interpreter where
  "example_interpreter = \<lparr>unicode_decimal = fullwidth_digits, max_str_digits = 4300\<rparr>"

definition fullwidth_twelve :: string where
  "fullwidth_twelve = [CHR 0xEF, CHR 0xBC, CHR 0x91, CHR 0xEF, CHR 0xBC, CHR 0x92]"

definition huge_number :: string where
  "huge_number = CHR ''1'' # replicate 310 (CHR ''0'')"

text \<open>Two photos with a video between them.\<close>

definition mixed_media :: "media_item list" where
  "mixed_media = [\<lparr>mtype = ''photo'', item_url = ''https://x/a.jpg''\<rparr>,
                  \<lparr>mtype = ''video'', item_url = ''https://x/v.mp4''\<rparr>,
                  \<lparr>mtype = ''photo'', item_url = ''https://x/b.jpg''\<rparr>]"

text \<open>A post with two photos, and a world that yields it.\<close>

definition album_tweet :: tweet where
  "album_tweet =
     \<lparr>id_attr = Val 300, content = Val ''album'',
      media = Val
        [\<lparr>class_name = ''Photo'', fullUrl = Val ''https://x/a.jpg'', previewUrl = Absent,
          url = Absent, type_attr = Absent\<rparr>,
         \<lparr>class_name = ''Photo'', fullUrl = Val ''https://x/b.jpg'', previewUrl = Absent,
          url = Absent, type_attr = Absent\<rparr>]\<rparr>"

definition album_world :: world where
  "album_world =
     \<lparr>get_items = (\<lambda>h u. if u = ''nasa'' then Inr [album_tweet] else Inr []),
      bot_raises = (\<lambda>h c. None)\<rparr>"

section \<open>The media normalizer: order, URLs and kinds\<close>

lemma resolve_url_spec: "resolve_url m = spec_resolve m"
  by (cases "fullUrl m"; cases "previewUrl m"; cases "url m")
     (auto simp: resolve_url_def spec_resolve_def)

lemma media_step_normalized:
  "media_step acc m = acc @ (case normalized m of None \<Rightarrow> [] | Some i \<Rightarrow> [i])"
  by (simp add: media_step_def normalized_def resolve_url_spec spec_kind_def explicit_video_def
      video_extension_def split: option.splits)

lemma foldl_media_step:
  "foldl media_step acc ms = acc @ List.map_filter normalized ms"
  by (induction ms arbitrary: acc)
     (simp_all add: media_step_normalized List.map_filter_simps split: option.splits)

lemma extract_media_normalized:
  "extract_media_from_tweet tw = List.map_filter normalized (media_elements tw)"
  by (simp add: extract_media_from_tweet_def media_elements_def foldl_media_step
      List.map_filter_simps split: attr.splits)

lemma map_map_filter:
  "map f (List.map_filter g xs) = List.map_filter (\<lambda>x. map_option f (g x)) xs"
  by (induction xs) (simp_all add: List.map_filter_simps split: option.splits)

text \<open>
  C3: the normalizer returns one entry for each media element that resolves a URL, in the
  order of the source's media list; the URL of an entry is the first non-empty value among
  the full-resolution, the preview and the generic url field of its element, and an
  element with no such value leaves no entry and raises nothing.
\<close>

theorem normalizer_urls_in_source_order:
  "map item_url (extract_media_from_tweet tw) = List.map_filter spec_resolve (media_elements tw)"
proof -
  have "(\<lambda>m. map_option item_url (normalized m)) = spec_resolve"
    by (rule ext) (simp add: normalized_def option.map_comp comp_def option.map_ident)
  then show ?thesis
    by (simp add: extract_media_normalized map_map_filter)
qed

theorem normalizer_urls_in_source_order_witness:
  "map item_url (extract_media_from_tweet example_tweet)
     = [''https://x/a.jpg'', ''https://x/c.MP4'', ''https://x/d'', ''https://x/e'',
        ''https://x/f.png'']"
  using normalizer_urls_in_source_order [of example_tweet]
  by (simp add: example_tweet_def media_elements_def List.map_filter_simps spec_resolve_def)

text \<open>
  C4: an element that resolves a URL is classified as video when its class or its type tag
  says video; otherwise as video exactly when the lower-cased URL ends in .mp4, .mov or
  .webm, and as photo in every other case.
\<close>

theorem normalizer_kinds:
  "map mtype (extract_media_from_tweet tw)
     = List.map_filter (\<lambda>m. map_option (spec_kind m) (spec_resolve m)) (media_elements tw)"
proof -
  have "(\<lambda>m. map_option mtype (normalized m))
          = (\<lambda>m. map_option (spec_kind m) (spec_resolve m))"
    by (rule ext) (simp add: normalized_def option.map_comp comp_def)
  then show ?thesis
    by (simp add: extract_media_normalized map_map_filter)
qed

theorem normalizer_kinds_witness:
  "map mtype (extract_media_from_tweet example_tweet)
     = [''photo'', ''video'', ''video'', ''video'', ''photo'']"
  using normalizer_kinds [of example_tweet]
  by (simp add: example_tweet_def media_elements_def List.map_filter_simps spec_resolve_def
      spec_kind_def explicit_video_def video_extension_def endswith_def lower_def
      lower_char_def suffix_to_prefix)

section \<open>The delivery gateway: which calls are made\<close>

lemma calls_of_append: "calls_of (xs @ ys) = calls_of xs @ calls_of ys"
  by (induction xs rule: calls_of.induct) simp_all

lemma fetches_of_append: "fetches_of (xs @ ys) = fetches_of xs @ fetches_of ys"
  by (induction xs rule: fetches_of.induct) simp_all

lemma logs_of_append: "logs_of (xs @ ys) = logs_of xs @ logs_of ys"
  by (induction xs rule: logs_of.induct) simp_all

lemma sleeps_of_append: "sleeps_of (xs @ ys) = sleeps_of xs @ sleeps_of ys"
  by (induction xs rule: sleeps_of.induct) simp_all

lemmas trace_append = calls_of_append fetches_of_append logs_of_append sleeps_of_append

lemma emit_fields:
  "config (emit e st) = config st"
  "cache (emit e st) = cache st"
  "config_file (emit e st) = config_file st"
  "cache_file (emit e st) = cache_file st"
  "trace (emit e st) = trace st @ [e]"
  by (simp_all add: emit_def)

lemma same_store_refl: "same_store st st"
  by (simp add: same_store_def)

lemma same_store_call: "same_store st st1 \<Longrightarrow> same_store st (emit (Call c) st1)"
  by (simp add: same_store_def emit_fields trace_append)

lemma same_store_log: "same_store st st1 \<Longrightarrow> same_store st (emit (Log l) st1)"
  by (simp add: same_store_def emit_fields trace_append)

lemma same_store_bot_call: "same_store st st1 \<Longrightarrow> same_store st (snd (bot_call w c st1))"
  by (simp add: bot_call_def same_store_call)

lemma same_store_send_text: "same_store st st1 \<Longrightarrow> same_store st (send_text w ch t st1)"
  by (simp add: send_text_def bot_call_def same_store_call same_store_log split: option.splits)

lemma same_store_send_photos:
  "same_store st st1 \<Longrightarrow> same_store st (snd (send_photos w ch ps cap st1))"
  by (simp add: send_photos_def Let_def same_store_bot_call)

lemma same_store_send_videos:
  "same_store st st1 \<Longrightarrow> same_store st (snd (send_videos w ch vs st1))"
  by (induction vs arbitrary: st1) (simp_all add: bot_call_def same_store_call split: option.splits)

lemma same_store_send_media_try:
  "same_store st st1 \<Longrightarrow> same_store st (snd (send_media_try w ch ms cap st1))"
  by (simp add: send_media_try_def Let_def split_def same_store_send_text same_store_send_photos
      same_store_send_videos split: option.splits)

lemma same_store_send_media:
  "same_store st st1 \<Longrightarrow> same_store st (send_media w ch ms cap st1)"
  by (simp add: send_media_def split_def same_store_send_media_try same_store_log
      split: option.splits)

lemma send_text_calls:
  "calls_of (trace (send_text w ch t st)) = calls_of (trace st) @ [SendMessage ch t]"
  by (simp add: send_text_def bot_call_def emit_fields trace_append split: option.splits)

lemma send_media_calls:
  "calls_of (trace (send_media w ch ms cap st))
     = calls_of (trace (snd (send_media_try w ch ms cap st)))"
  by (simp add: send_media_def split_def emit_fields trace_append split: option.splits)

text \<open>
  The video loop makes the sends of an initial segment of the videos, all of them when
  no call raises.
\<close>

lemma send_videos_calls:
  "prefix (calls_of (trace (snd (send_videos w ch vs st))))
     (calls_of (trace st) @ map (SendVideo ch) vs)
   \<and> prefix (calls_of (trace st)) (calls_of (trace (snd (send_videos w ch vs st))))
   \<and> (fst (send_videos w ch vs st) = None \<longrightarrow>
        calls_of (trace (snd (send_videos w ch vs st)))
          = calls_of (trace st) @ map (SendVideo ch) vs)"
proof (induction vs arbitrary: st)
  case Nil
  then show ?case by simp
next
  case (Cons v vs)
  show ?case
  proof (cases "bot_raises w (trace st) (SendVideo ch v)")
    case None
    then show ?thesis
      using Cons.IH[of "emit (Call (SendVideo ch v)) st"]
      by (simp add: bot_call_def emit_fields trace_append) (meson append_prefixD)
  next
    case (Some e)
    then show ?thesis
      by (simp add: bot_call_def emit_fields trace_append)
  qed
qed

lemma prefix_snoc_strict: "prefix (xs @ [c]) ys \<Longrightarrow> strict_prefix xs ys"
  by (auto simp: prefix_def strict_prefix_def)

lemma send_videos_first:
  assumes "vs \<noteq> []"
  shows "strict_prefix (calls_of (trace st)) (calls_of (trace (snd (send_videos w ch vs st))))"
proof -
  obtain v vs' where vs: "vs = v # vs'"
    using assms by (cases vs) auto
  let ?st1 = "emit (Call (SendVideo ch v)) st"
  have "prefix (calls_of (trace ?st1)) (calls_of (trace (snd (send_videos w ch vs' ?st1))))"
    using send_videos_calls by blast
  then have "strict_prefix (calls_of (trace st))
               (calls_of (trace (snd (send_videos w ch vs' ?st1))))"
    by (simp add: emit_fields trace_append prefix_snoc_strict)
  moreover have "strict_prefix (calls_of (trace st)) (calls_of (trace ?st1))"
    by (simp add: emit_fields trace_append prefix_snoc_strict)
  ultimately show ?thesis
    by (simp add: vs bot_call_def split: option.splits)
qed

text \<open>With at most one photo the photo handling is the expected one.\<close>

lemma send_photos_calls:
  assumes "length ps \<le> 1"
  shows "calls_of (trace (snd (send_photos w ch ps cap st)))
           = calls_of (trace st) @ photo_calls ch ps cap"
proof (cases ps)
  case Nil
  then show ?thesis by (simp add: send_photos_def photo_calls_def)
next
  case (Cons p ps')
  then have "ps' = []"
    using assms by simp
  then show ?thesis
    using Cons
    by (simp add: send_photos_def photo_calls_def bot_call_def emit_fields trace_append)
qed

text \<open>With several photos it raises and calls nothing.\<close>

lemma send_photos_several:
  assumes "1 < length ps"
  shows "send_photos w ch ps cap st = (Some AttributeError, st)"
  using assms by (auto simp: send_photos_def)

lemma photo_calls_nonempty: "photos \<noteq> [] \<Longrightarrow> photo_calls ch photos cap \<noteq> []"
  by (simp add: photo_calls_def split: list.splits)

lemma send_photos_none: "fst (send_photos w ch [] cap st) = None"
  by (simp add: send_photos_def)

text \<open>
  The calls of the \<open>try\<close> block on a non-empty media list with at most one photo: an
  initial segment of the expected calls, all of them when no exception leaves the block,
  and at least one when every entry is a photo or a video.
\<close>

lemma send_media_try_calls:
  assumes "ms \<noteq> []"
      and "length (filter (\<lambda>m. mtype m = ''photo'') ms) \<le> 1"
  shows "prefix (calls_of (trace (snd (send_media_try w ch ms cap st))))
           (calls_of (trace st) @ spec_calls ch ms cap)
       \<and> prefix (calls_of (trace st)) (calls_of (trace (snd (send_media_try w ch ms cap st))))
       \<and> (fst (send_media_try w ch ms cap st) = None \<longrightarrow>
            calls_of (trace (snd (send_media_try w ch ms cap st)))
              = calls_of (trace st) @ spec_calls ch ms cap)
       \<and> ((\<forall>m \<in> set ms. mtype m = ''photo'' \<or> mtype m = ''video'') \<longrightarrow>
            calls_of (trace (snd (send_media_try w ch ms cap st))) \<noteq> calls_of (trace st))"
proof -
  define photos where "photos = map item_url (filter (\<lambda>m. mtype m = ''photo'') ms)"
  define videos where "videos = map item_url (filter (\<lambda>m. mtype m = ''video'') ms)"
  define r1 where "r1 = send_photos w ch photos cap st"
  define r2 where
    "r2 = (if videos \<noteq> [] then send_videos w ch videos (snd r1) else (None, snd r1))"
  define fallback where "fallback = (photos = [] \<and> videos = [] \<and> cap \<noteq> [])"
  define st3 where "st3 = (if fallback then send_text w ch cap (snd r2) else snd r2)"
  define P where "P = photo_calls ch photos cap"
  define V where "V = map (SendVideo ch) videos"
  define F where "F = (if fallback then [SendMessage ch cap] else [])"
  define c0 where "c0 = calls_of (trace st)"
  define c1 where "c1 = calls_of (trace (snd r1))"
  define c2 where "c2 = calls_of (trace (snd r2))"
  define c3 where "c3 = calls_of (trace st3)"
  define typed where "typed = (\<forall>m \<in> set ms. mtype m = ''photo'' \<or> mtype m = ''video'')"
  have res: "send_media_try w ch ms cap st =
      (case fst r1 of
         Some e \<Rightarrow> (Some e, snd r1)
       | None \<Rightarrow> (case fst r2 of Some e \<Rightarrow> (Some e, snd r2) | None \<Rightarrow> (None, st3)))"
    using assms(1)
    unfolding send_media_try_def Let_def split_def st3_def fallback_def r2_def r1_def
      photos_def videos_def
    by (simp split: option.splits)
  have spec: "spec_calls ch ms cap = P @ V @ F"
    unfolding spec_calls_def Let_def P_def V_def F_def fallback_def photos_def videos_def
    by simp
  have one: "length photos \<le> 1"
    using assms(2) by (simp add: photos_def)
  have h1: "c1 = c0 @ P"
    unfolding c1_def c0_def P_def r1_def using one by (rule send_photos_calls)
  have h2: "prefix c2 (c1 @ V) \<and> prefix c1 c2 \<and> (fst r2 = None \<longrightarrow> c2 = c1 @ V)"
  proof (cases "videos = []")
    case True
    then show ?thesis by (simp add: c2_def c1_def r2_def V_def)
  next
    case False
    then show ?thesis
      using send_videos_calls[of w ch videos "snd r1"]
      by (simp add: c2_def c1_def r2_def V_def)
  qed
  have h3: "c3 = c2 @ F"
    by (simp add: c3_def c2_def st3_def F_def send_text_calls)
  have some: "typed \<Longrightarrow> photos = [] \<Longrightarrow> videos \<noteq> []"
    using assms(1) unfolding typed_def photos_def videos_def
    by (cases ms) (auto simp: filter_empty_conv)
  have p1: "photos \<noteq> [] \<Longrightarrow> strict_prefix c0 c1"
    using h1 photo_calls_nonempty[of photos ch cap] by (auto simp: P_def strict_prefix_def)
  have p2: "videos \<noteq> [] \<Longrightarrow> strict_prefix c1 c2"
    using send_videos_first[of videos "snd r1" w ch] by (simp add: c1_def c2_def r2_def)
  have n1: "photos = [] \<Longrightarrow> fst r1 = None"
    by (simp add: r1_def send_photos_none)
  have p01: "prefix c0 c1"
    using h1 by simp
  have p12: "prefix c1 c2"
    using h2 by simp
  have p23: "prefix c2 c3"
    using h3 by simp
  have l01: "length c0 \<le> length c1" "photos \<noteq> [] \<Longrightarrow> length c0 < length c1"
    using p01 p1 by (simp_all add: prefix_length_le prefix_length_less)
  have l12: "length c1 \<le> length c2" "videos \<noteq> [] \<Longrightarrow> length c1 < length c2"
    using p12 p2 by (simp_all add: prefix_length_le prefix_length_less)
  have l23: "length c2 \<le> length c3"
    using p23 by (simp add: prefix_length_le)
  have grow2: "typed \<Longrightarrow> c2 \<noteq> c0"
  proof
    assume "typed" "c2 = c0"
    then show False
      using some l01 l12 by (cases "photos = []") fastforce+
  qed
  have grow3: "typed \<Longrightarrow> c3 \<noteq> c0"
  proof
    assume "typed" "c3 = c0"
    then show False
      using some l01 l12 l23 by (cases "photos = []") fastforce+
  qed
  have grow1: "typed \<Longrightarrow> fst r1 \<noteq> None \<Longrightarrow> c1 \<noteq> c0"
    using n1 l01 by fastforce
  have goal: "prefix (calls_of (trace (snd (send_media_try w ch ms cap st)))) (c0 @ P @ V @ F)
       \<and> prefix c0 (calls_of (trace (snd (send_media_try w ch ms cap st))))
       \<and> (fst (send_media_try w ch ms cap st) = None \<longrightarrow>
            calls_of (trace (snd (send_media_try w ch ms cap st))) = c0 @ P @ V @ F)
       \<and> (typed \<longrightarrow> calls_of (trace (snd (send_media_try w ch ms cap st))) \<noteq> c0)"
  proof (cases "fst r1")
    case (Some e)
    then show ?thesis
      using h1 grow1 by (simp add: res c1_def[symmetric])
  next
    case None
    note r1_none = this
    show ?thesis
    proof (cases "fst r2")
      case (Some e)
      have "prefix c2 (c0 @ P @ V @ F)"
        using h1 h2 by (metis append.assoc prefix_order.trans prefixI)
      moreover have "prefix c0 c2"
        using h1 h2 by (metis append_prefixD)
      ultimately show ?thesis
        using r1_none Some grow2 by (simp add: res c2_def[symmetric])
    next
      case None
      then have "c3 = c0 @ P @ V @ F"
        using h1 h2 h3 by simp
      then show ?thesis
        using r1_none None grow3 by (simp add: res c3_def[symmetric])
    qed
  qed
  then show ?thesis
    by (simp add: spec c0_def typed_def)
qed

lemma send_videos_no_raise:
  "\<forall>h c. bot_raises w h c = None \<Longrightarrow> fst (send_videos w ch vs st) = None"
  by (induction vs arbitrary: st) (simp_all add: bot_call_def)

text \<open>
  Away from the grouped send the calls are the expected ones: with at most one photo and
  a bot whose calls do not raise, a delivery makes the photo send with the caption, then
  one send for each video, or sends the caption as text when there is neither.
\<close>

lemma send_media_expected_calls:
  assumes "ms \<noteq> []"
      and "length (filter (\<lambda>m. mtype m = ''photo'') ms) \<le> 1"
      and "\<forall>h c. bot_raises w h c = None"
  shows "calls_of (trace (send_media w ch ms cap st)) = calls_of (trace st) @ spec_calls ch ms cap"
proof -
  have "length (map item_url (filter (\<lambda>m. mtype m = ''photo'') ms)) \<le> 1"
    using assms(2) by simp
  then have "fst (send_photos w ch (map item_url (filter (\<lambda>m. mtype m = ''photo'') ms)) cap st)
               = None"
    using assms(3)
    by (cases "map item_url (filter (\<lambda>m. mtype m = ''photo'') ms)")
       (simp_all add: send_photos_def bot_call_def)
  then have "fst (send_media_try w ch ms cap st) = None"
    using assms(3)
    by (simp add: send_media_try_def Let_def split_def send_videos_no_raise split: option.splits)
  then show ?thesis
    using send_media_try_calls[OF assms(1,2), of w ch cap st] by (simp add: send_media_calls)
qed

text \<open>
  C5 fails on the code where the claim expects the grouped send. With two photos and a
  video, and a bot whose calls do not raise, the claim expects one grouped send of the
  two photos, the caption on the first, and then the send of the video. The code raises
  \<open>AttributeError\<close> when it sets the caption of the first photo; \<open>send_media\<close> catches and
  logs it, and no call of the bot is made: neither the photos nor the video are sent.
\<close>

theorem grouped_photo_send_raises:
  "spec_calls (Some ''@chan'') mixed_media ''cap''
     = [SendMediaGroup (Some ''@chan'')
          [\<lparr>photo = ''https://x/a.jpg'', caption = Some ''cap''\<rparr>,
           \<lparr>photo = ''https://x/b.jpg'', caption = None\<rparr>],
        SendVideo (Some ''@chan'') ''https://x/v.mp4'']
   \<and> fst (send_media_try quiet_world (Some ''@chan'') mixed_media ''cap'' start_state)
       = Some AttributeError
   \<and> calls_of (trace (send_media quiet_world (Some ''@chan'') mixed_media ''cap'' start_state))
       = []
   \<and> logs_of (trace (send_media quiet_world (Some ''@chan'') mixed_media ''cap'' start_state))
       = [FailedToSendMedia AttributeError]"
  by code_simp

section \<open>One account of a poll cycle\<close>

lemma get_latest_fields:
  "config (snd (get_latest_tweet_sync w u st)) = config st"
  "cache (snd (get_latest_tweet_sync w u st)) = cache st"
  "config_file (snd (get_latest_tweet_sync w u st)) = config_file st"
  "cache_file (snd (get_latest_tweet_sync w u st)) = cache_file st"
  "calls_of (trace (snd (get_latest_tweet_sync w u st))) = calls_of (trace st)"
  "fetches_of (trace (snd (get_latest_tweet_sync w u st))) = fetches_of (trace st) @ [lstrip_at u]"
  "sleeps_of (trace (snd (get_latest_tweet_sync w u st))) = sleeps_of (trace st)"
  by (simp_all add: get_latest_tweet_sync_def Let_def emit_fields trace_append
      split: sum.splits list.splits)

lemma tweet_text_ok: "content tw \<noteq> PyNone \<Longrightarrow> \<exists>t. tweet_text tw = Inr t"
  by (cases "content tw") (simp_all add: tweet_text_def)

lemma save_marker_fields:
  "config (save_marker acc tid st) = config st"
  "config_file (save_marker acc tid st) = config_file st"
  "trace (save_marker acc tid st) = trace st"
  "cache (save_marker acc tid st) = (cache st)(acc \<mapsto> tid)"
  "cache_file (save_marker acc tid st) = Some ((cache st)(acc \<mapsto> tid))"
  by (simp_all add: save_marker_def Let_def)

text \<open>The new-post branch: the delivery with the caption, then the marker.\<close>

lemma process_account_new:
  assumes "get_latest_tweet_sync w acc st = (Some tw, st1)"
      and "cache st acc \<noteq> Some (tweet_id tw)"
      and "tweet_text tw = Inr t"
  shows "process_account w acc st =
           (None, save_marker acc (tweet_id tw)
                    (deliver w (telegram_channel (config st)) (extract_media_from_tweet tw)
                       (new_tweet_caption acc t) st1))"
proof -
  have "cache st1 = cache st" "config st1 = config st"
    using get_latest_fields(1,2)[of w acc st] assms(1) by simp_all
  then show ?thesis
    using assms by (simp add: process_account_def Let_def deliver_def save_marker_def)
qed

text \<open>The other branch: the marker is the post's id, and nothing more is done.\<close>

lemma process_account_old:
  assumes "get_latest_tweet_sync w acc st = (Some tw, st1)"
      and "cache st acc = Some (tweet_id tw)"
  shows "process_account w acc st = (None, st1)"
proof -
  have "cache st1 = cache st"
    using get_latest_fields(2)[of w acc st] assms(1) by simp
  then show ?thesis
    using assms by (simp add: process_account_def Let_def)
qed

lemma spec_kind_cases: "spec_kind m u = ''photo'' \<or> spec_kind m u = ''video''"
  by (simp add: spec_kind_def)

lemma extract_types:
  "\<forall>m \<in> set (extract_media_from_tweet tw). mtype m = ''photo'' \<or> mtype m = ''video''"
proof
  fix m
  assume "m \<in> set (extract_media_from_tweet tw)"
  then obtain x u where "m = \<lparr>mtype = spec_kind x u, item_url = u\<rparr>"
    by (auto simp: extract_media_normalized List.map_filter_def normalized_def)
  then show "mtype m = ''photo'' \<or> mtype m = ''video''"
    using spec_kind_cases[of x u] by simp
qed

text \<open>
  The delivery of a normalized post with at most one photo makes at least one call of the
  bot.
\<close>

lemma deliver_calls:
  assumes "length (filter (\<lambda>m. mtype m = ''photo'') (extract_media_from_tweet tw)) \<le> 1"
  shows "calls_of (trace (deliver w ch (extract_media_from_tweet tw) cap st1))
           \<noteq> calls_of (trace st1)"
proof (cases "extract_media_from_tweet tw = []")
  case True
  then show ?thesis by (simp add: deliver_def send_text_calls)
next
  case False
  then show ?thesis
    using send_media_try_calls[OF False assms, of w ch cap st1] extract_types[of tw]
    by (simp add: deliver_def send_media_calls)
qed

text \<open>A post whose content is \<open>None\<close> and whose id is not the marker: reading the text raises.\<close>

lemma process_account_raises:
  assumes "get_latest_tweet_sync w acc st = (Some tw, st1)"
      and "cache st acc \<noteq> Some (tweet_id tw)"
      and "content tw = PyNone"
  shows "process_account w acc st = (Some AttributeError, st1)"
proof -
  have "cache st1 = cache st"
    using get_latest_fields(2)[of w acc st] assms(1) by simp
  then show ?thesis
    using assms by (simp add: process_account_def Let_def tweet_text_def)
qed

lemma nasa_id: "tweet_id nasa_tweet = ''100''"
  by (simp add: tweet_id_def nasa_tweet_def str_int_def digits.simps)

text \<open>
  C1: for an account whose fetched latest post has an id other than the stored marker
  (and a content that is not \<open>None\<close>, so that the delivery is reached), whatever the bot
  calls of the delivery do, succeed or raise, the body of the loop ends without exception
  with the marker of the account equal to the post's id and the marker file equal to the
  marker map, and the next account is processed from that state. The witness is a
  delivery whose send raises and is caught by the gateway.
\<close>

theorem marker_persisted_after_delivery:
  assumes "get_latest_tweet_sync w acc st = (Some tw, st1)"
      and "cache st acc \<noteq> Some (tweet_id tw)"
      and "content tw \<noteq> PyNone"
  shows "fst (process_account w acc st) = None
       \<and> cache (snd (process_account w acc st)) acc = Some (tweet_id tw)
       \<and> cache_file (snd (process_account w acc st)) = Some (cache (snd (process_account w acc st)))
       \<and> for_accounts w (acc # rest) st = for_accounts w rest (snd (process_account w acc st))"
proof -
  obtain t where "tweet_text tw = Inr t"
    using assms(3) tweet_text_ok by blast
  then have "process_account w acc st =
           (None, save_marker acc (tweet_id tw)
                    (deliver w (telegram_channel (config st)) (extract_media_from_tweet tw)
                       (new_tweet_caption acc t) st1))"
    using assms process_account_new by blast
  then show ?thesis
    by (simp add: save_marker_fields)
qed

theorem marker_persisted_after_delivery_witness:
  "cache (snd (process_account failing_world ''@nasa'' start_state)) ''@nasa'' = Some ''100''
   \<and> cache_file (snd (process_account failing_world ''@nasa'' start_state))
       = Some (cache (snd (process_account failing_world ''@nasa'' start_state)))
   \<and> logs_of (trace (snd (process_account failing_world ''@nasa'' start_state)))
       = [FailedToSendText TelegramError]"
proof -
  have logged: "logs_of (trace (snd (process_account failing_world ''@nasa'' start_state)))
                  = [FailedToSendText TelegramError]"
    by code_simp
  have h1: "get_latest_tweet_sync failing_world ''@nasa'' start_state
              = (Some nasa_tweet, emit (Fetch ''nasa'') start_state)"
    by (simp add: get_latest_tweet_sync_def failing_world_def lstrip_at_def)
  have h2: "cache start_state ''@nasa'' \<noteq> Some (tweet_id nasa_tweet)"
    by (simp add: start_state_def)
  have h3: "content nasa_tweet \<noteq> PyNone"
    by (simp add: nasa_tweet_def)
  from marker_persisted_after_delivery [OF h1 h2 h3] logged show ?thesis
    by (simp add: nasa_id)
qed

text \<open>
  A new post with two photos in the poll loop: the delivery raises at the caption of the
  first photo, no call of the bot is made, and the id of the post is recorded as the
  marker all the same.
\<close>

lemma album_post_marked_but_not_sent:
  "fst (process_account album_world ''@nasa'' start_state) = None
   \<and> calls_of (trace (snd (process_account album_world ''@nasa'' start_state))) = []
   \<and> logs_of (trace (snd (process_account album_world ''@nasa'' start_state)))
       = [FailedToSendMedia AttributeError]
   \<and> cache (snd (process_account album_world ''@nasa'' start_state)) ''@nasa'' = Some ''300''"
  by code_simp

text \<open>
  C10, as the code has it: for a fetched post, the new-post branch is taken exactly when
  the post's id, as a string, differs from the stored marker, be it that the account has
  no marker yet or that the id is older than the marker. When the id equals the marker,
  no call of the bot is made and the marker map and its file stay as they are. When it
  differs and the content of the post is not \<open>None\<close>, the post is handed to the delivery
  and its id is then recorded as the marker and saved; the delivery makes at least one
  call of the bot when the post has at most one photo. When it differs and the content is
  \<open>None\<close>, reading the text raises: no call is made and nothing is recorded.
\<close>

theorem delivery_iff_marker_differs:
  assumes "get_latest_tweet_sync w acc st = (Some tw, st1)"
  shows "(cache st acc = Some (tweet_id tw) \<longrightarrow>
            fst (process_account w acc st) = None
            \<and> calls_of (trace (snd (process_account w acc st))) = calls_of (trace st)
            \<and> cache (snd (process_account w acc st)) = cache st
            \<and> cache_file (snd (process_account w acc st)) = cache_file st)
       \<and> (cache st acc \<noteq> Some (tweet_id tw) \<and> content tw \<noteq> PyNone \<longrightarrow>
            (\<exists>t. tweet_text tw = Inr t
                 \<and> process_account w acc st =
                     (None, save_marker acc (tweet_id tw)
                              (deliver w (telegram_channel (config st))
                                 (extract_media_from_tweet tw) (new_tweet_caption acc t) st1)))
            \<and> cache (snd (process_account w acc st)) acc = Some (tweet_id tw)
            \<and> cache_file (snd (process_account w acc st))
                = Some (cache (snd (process_account w acc st)))
            \<and> (length (filter (\<lambda>m. mtype m = ''photo'') (extract_media_from_tweet tw)) \<le> 1 \<longrightarrow>
                 calls_of (trace (snd (process_account w acc st))) \<noteq> calls_of (trace st)))
       \<and> (cache st acc \<noteq> Some (tweet_id tw) \<and> content tw = PyNone \<longrightarrow>
            fst (process_account w acc st) = Some AttributeError
            \<and> calls_of (trace (snd (process_account w acc st))) = calls_of (trace st)
            \<and> cache (snd (process_account w acc st)) = cache st
            \<and> cache_file (snd (process_account w acc st)) = cache_file st)"
proof -
  have calls1: "calls_of (trace st1) = calls_of (trace st)"
    using get_latest_fields(5)[of w acc st] assms by simp
  have cache1: "cache st1 = cache st" "cache_file st1 = cache_file st"
    using get_latest_fields(2,4)[of w acc st] assms by simp_all
  have same: "cache st acc = Some (tweet_id tw) \<Longrightarrow> process_account w acc st = (None, st1)"
    using process_account_old[OF assms] by simp
  have raises: "cache st acc \<noteq> Some (tweet_id tw) \<Longrightarrow> content tw = PyNone \<Longrightarrow>
      process_account w acc st = (Some AttributeError, st1)"
    using process_account_raises[OF assms] by simp
  have new: "cache st acc \<noteq> Some (tweet_id tw) \<Longrightarrow> content tw \<noteq> PyNone \<Longrightarrow>
      (\<exists>t. tweet_text tw = Inr t
           \<and> process_account w acc st =
               (None, save_marker acc (tweet_id tw)
                        (deliver w (telegram_channel (config st))
                           (extract_media_from_tweet tw) (new_tweet_caption acc t) st1)))"
    using process_account_new[OF assms] tweet_text_ok[of tw] by blast
  have grows: "cache st acc \<noteq> Some (tweet_id tw) \<Longrightarrow> content tw \<noteq> PyNone \<Longrightarrow>
      length (filter (\<lambda>m. mtype m = ''photo'') (extract_media_from_tweet tw)) \<le> 1 \<Longrightarrow>
      calls_of (trace (snd (process_account w acc st))) \<noteq> calls_of (trace st)"
  proof -
    assume a: "cache st acc \<noteq> Some (tweet_id tw)" "content tw \<noteq> PyNone"
      "length (filter (\<lambda>m. mtype m = ''photo'') (extract_media_from_tweet tw)) \<le> 1"
    obtain t where "process_account w acc st =
               (None, save_marker acc (tweet_id tw)
                        (deliver w (telegram_channel (config st))
                           (extract_media_from_tweet tw) (new_tweet_caption acc t) st1))"
      using new[OF a(1,2)] by blast
    then show ?thesis
      using deliver_calls[OF a(3), of w "telegram_channel (config st)" "new_tweet_caption acc t" st1]
        calls1
      by (simp add: save_marker_fields)
  qed
  have marked: "cache st acc \<noteq> Some (tweet_id tw) \<Longrightarrow> content tw \<noteq> PyNone \<Longrightarrow>
      cache (snd (process_account w acc st)) acc = Some (tweet_id tw)
      \<and> cache_file (snd (process_account w acc st))
          = Some (cache (snd (process_account w acc st)))"
  proof -
    assume a: "cache st acc \<noteq> Some (tweet_id tw)" "content tw \<noteq> PyNone"
    obtain t where "process_account w acc st =
               (None, save_marker acc (tweet_id tw)
                        (deliver w (telegram_channel (config st))
                           (extract_media_from_tweet tw) (new_tweet_caption acc t) st1))"
      using new[OF a] by blast
    then show ?thesis
      by (simp add: save_marker_fields)
  qed
  show ?thesis
    using same raises new grows marked calls1 cache1 by auto
qed

theorem delivery_iff_marker_differs_witness:
  "calls_of (trace (snd (process_account quiet_world ''@nasa'' later_state)))
     \<noteq> calls_of (trace later_state)
   \<and> cache later_state ''@nasa'' = Some ''200''
   \<and> cache (snd (process_account quiet_world ''@nasa'' later_state)) ''@nasa'' = Some ''100''"
proof -
  have h1: "get_latest_tweet_sync quiet_world ''@nasa'' later_state
              = (Some nasa_tweet, emit (Fetch ''nasa'') later_state)"
    by (simp add: get_latest_tweet_sync_def quiet_world_def lstrip_at_def)
  have h2: "content nasa_tweet \<noteq> PyNone"
    by (simp add: nasa_tweet_def)
  have h3: "cache later_state ''@nasa'' \<noteq> Some (tweet_id nasa_tweet)"
    by (simp add: later_state_def nasa_id)
  have h4: "length (filter (\<lambda>m. mtype m = ''photo'') (extract_media_from_tweet nasa_tweet)) \<le> 1"
    by (simp add: extract_media_from_tweet_def nasa_tweet_def)
  from delivery_iff_marker_differs [OF h1, THEN conjunct2, THEN conjunct1] h2 h3 h4
  show ?thesis
    by (simp add: nasa_id later_state_def)
qed

text \<open>
  C10 as the specification states it fails: on the first run, with no marker stored, the
  latest post of @nasa has an id that differs from the marker, but its content is \<open>None\<close>;
  it is neither delivered nor recorded as the marker.
\<close>

theorem unreadable_post_not_delivered:
  "fst (get_latest_tweet_sync broken_world ''@nasa'' start_state) = Some broken_tweet
   \<and> cache start_state ''@nasa'' = None
   \<and> cache start_state ''@nasa'' \<noteq> Some (tweet_id broken_tweet)
   \<and> fst (process_account broken_world ''@nasa'' start_state) = Some AttributeError
   \<and> calls_of (trace (snd (process_account broken_world ''@nasa'' start_state))) = []
   \<and> cache (snd (process_account broken_world ''@nasa'' start_state)) ''@nasa'' = None"
  by code_simp

text \<open>
  C8, as the code has it: the caption of the delivery of a new post is the thread emoji
  and "New tweet from", the account, a colon, a blank line and the text, when the text
  (the content of the post without the white space around it) is not empty, and the
  emoji, "New tweet from" and the account alone, without the colon, when it is empty. A
  post without media is delivered as one text message holding that caption.
\<close>

theorem caption_of_new_post:
  assumes "get_latest_tweet_sync w acc st = (Some tw, st1)"
      and "cache st acc \<noteq> Some (tweet_id tw)"
      and "tweet_text tw = Inr t"
  shows "process_account w acc st =
           (None, save_marker acc (tweet_id tw)
                    (deliver w (telegram_channel (config st)) (extract_media_from_tweet tw)
                       (if t \<noteq> [] then caption_header @ acc @ '':'' @ [CHR 0x0A, CHR 0x0A] @ t
                        else caption_header @ acc) st1))
       \<and> (extract_media_from_tweet tw = [] \<longrightarrow>
            calls_of (trace (snd (process_account w acc st)))
              = calls_of (trace st)
                @ [SendMessage (telegram_channel (config st))
                     (if t \<noteq> [] then caption_header @ acc @ '':'' @ [CHR 0x0A, CHR 0x0A] @ t
                      else caption_header @ acc)])"
proof -
  have "calls_of (trace st1) = calls_of (trace st)"
    using get_latest_fields(5)[of w acc st] assms(1) by simp
  then show ?thesis
    using process_account_new[OF assms]
    by (simp add: deliver_def save_marker_fields new_tweet_caption_def send_text_calls)
qed

theorem caption_of_new_post_witness:
  "calls_of (trace (snd (process_account quiet_world ''@nasa'' start_state)))
     = [SendMessage (Some ''@chan'')
          ([CHR 0xF0, CHR 0x9F, CHR 0xA7, CHR 0xB5] @ '' New tweet from @nasa:''
           @ [CHR 0x0A, CHR 0x0A] @ ''hello'')]"
proof -
  have h1: "get_latest_tweet_sync quiet_world ''@nasa'' start_state
              = (Some nasa_tweet, emit (Fetch ''nasa'') start_state)"
    by (simp add: get_latest_tweet_sync_def quiet_world_def lstrip_at_def)
  have h2: "cache start_state ''@nasa'' \<noteq> Some (tweet_id nasa_tweet)"
    by (simp add: start_state_def)
  have h3: "tweet_text nasa_tweet = Inr ''hello''"
    by code_simp
  have h4: "extract_media_from_tweet nasa_tweet = []"
    by (simp add: extract_media_from_tweet_def nasa_tweet_def)
  from caption_of_new_post [OF h1 h2 h3, THEN conjunct2] h4 show ?thesis
    by (simp add: start_state_def base_config_def caption_header_def)
qed

text \<open>
  C8 as the specification states it fails: the text message that delivers the post
  "hello" of @nasa is not "New post from @nasa:", a blank line and the text, and the
  caption of a post without text is not "New post from @nasa:".
\<close>

theorem caption_differs_from_specification:
  "calls_of (trace (snd (process_account quiet_world ''@nasa'' start_state)))
     \<noteq> [SendMessage (Some ''@chan'') (spec_caption ''@nasa'' ''hello'')]
   \<and> new_tweet_caption ''@nasa'' [] \<noteq> spec_caption ''@nasa'' []"
  by code_simp

text \<open>
  C9 fails on the code: with no channel set, the poll loop still calls the bot for a new
  post, with no chat id, and logs no skip; the helper \<open>send_to_channel_text_only\<close>, which
  the loop does not call, is the one that logs the skip and calls nothing.
\<close>

theorem unset_channel_send_attempted:
  "calls_of (trace (snd (process_account quiet_world ''@nasa'' unset_state)))
     = [SendMessage None (new_tweet_caption ''@nasa'' ''hello'')]
   \<and> logs_of (trace (snd (process_account quiet_world ''@nasa'' unset_state))) = []
   \<and> cache (snd (process_account quiet_world ''@nasa'' unset_state)) ''@nasa'' = Some ''100''
   \<and> calls_of (trace (send_to_channel_text_only quiet_world
                        (new_tweet_caption ''@nasa'' ''hello'') unset_state)) = []
   \<and> logs_of (trace (send_to_channel_text_only quiet_world
                        (new_tweet_caption ''@nasa'' ''hello'') unset_state)) = [ChannelNotSet]"
  by code_simp

section \<open>The poll cycle and the loop\<close>

lemmas send_media_frame = same_store_send_media [OF same_store_refl, unfolded same_store_def]

lemmas send_text_frame = same_store_send_text [OF same_store_refl, unfolded same_store_def]

text \<open>Processing an account runs the scraper once and leaves the configuration as it was.\<close>

lemma process_account_frame:
  "config (snd (process_account w acc st)) = config st
   \<and> config_file (snd (process_account w acc st)) = config_file st
   \<and> fetches_of (trace (snd (process_account w acc st))) = fetches_of (trace st) @ [lstrip_at acc]
   \<and> sleeps_of (trace (snd (process_account w acc st))) = sleeps_of (trace st)"
proof -
  obtain r st1 where g: "get_latest_tweet_sync w acc st = (r, st1)"
    by (cases "get_latest_tweet_sync w acc st") auto
  have f: "config st1 = config st" "config_file st1 = config_file st"
    "fetches_of (trace st1) = fetches_of (trace st) @ [lstrip_at acc]"
    "sleeps_of (trace st1) = sleeps_of (trace st)"
    using get_latest_fields[of w acc st] g by simp_all
  show ?thesis
    using f
    by (simp add: process_account_def g Let_def send_media_frame send_text_frame
        split: option.splits sum.splits)
qed


text \<open>Processing an account leaves the markers of the other accounts as they were.\<close>

lemma process_account_cache_other:
  assumes "b \<noteq> a"
  shows "cache (snd (process_account w a st)) b = cache st b"
proof -
  obtain r st1 where g: "get_latest_tweet_sync w a st = (r, st1)"
    by (cases "get_latest_tweet_sync w a st") auto
  have f: "cache st1 = cache st"
    using get_latest_fields(2)[of w a st] g by simp
  show ?thesis
    using f assms
    by (simp add: process_account_def g Let_def send_media_frame send_text_frame
        split: option.splits sum.splits)
qed

lemma for_accounts_frame:
  "config (snd (for_accounts w accs st)) = config st
   \<and> sleeps_of (trace (snd (for_accounts w accs st))) = sleeps_of (trace st)"
proof (induction accs arbitrary: st)
  case Nil
  then show ?case by simp
next
  case (Cons a accs)
  show ?case
    using Cons.IH[of "snd (process_account w a st)"] process_account_frame[of w a st]
    by (simp add: split_def split: option.splits)
qed


lemma for_accounts_cache_other:
  assumes "b \<notin> set accs"
  shows "cache (snd (for_accounts w accs st)) b = cache st b"
  using assms
proof (induction accs arbitrary: st)
  case Nil
  then show ?case by simp
next
  case (Cons a accs)
  then show ?case
    using process_account_cache_other[of b a w st]
    by (simp add: split_def split: option.splits)
qed



lemma check_try_frame:
  "config (snd (check_try w st)) = config st
   \<and> sleeps_of (trace (snd (check_try w st))) = sleeps_of (trace st)"
  using for_accounts_frame
  by (simp add: check_try_def Let_def emit_fields trace_append)











text \<open>
  The sleep is not inside the \<open>try\<close>. When the delay has no float, the sleep of the first
  iteration raises \<open>OverflowError\<close>, no handler catches it, and the loop ends without
  having slept. \<open>/setinterval\<close> stores such an interval when it is given one: a number of
  311 digits is an integer to \<open>int\<close>.
\<close>

lemma oversized_interval_ends_loop:
  assumes "float_limit \<le> max 30 (interval_minutes (config st) * 60)"
  shows "fst (check_for_new_tweets w (Suc n) st) = Some OverflowError
       \<and> sleeps_of (trace (snd (check_for_new_tweets w (Suc n) st))) = sleeps_of (trace st)"
proof -
  define st1 where "st1 = (case check_try w st of
                             (None, st') \<Rightarrow> st'
                           | (Some e, st') \<Rightarrow> emit (Log (ErrorInCheckLoop e)) st')"
  have c: "config st1 = config st" "sleeps_of (trace st1) = sleeps_of (trace st)"
    using check_try_frame[of w st]
    by (simp_all add: st1_def split_def emit_fields trace_append split: option.splits)
  have "check_cycle w st = sleep (max 30 (interval_minutes (config st) * 60)) st1"
    unfolding check_cycle_def Let_def st1_def[symmetric] by (simp only: c)
  moreover have "sleep (max 30 (interval_minutes (config st) * 60)) st1
                   = (Some OverflowError, st1)"
    unfolding sleep_def using assms by (rule if_P)
  ultimately have "check_cycle w st = (Some OverflowError, st1)"
    by (simp only:)
  then show ?thesis
    using c by simp
qed

lemma py_int_huge: "py_int example_interpreter huge_number = Some (10 ^ 310)"
  by code_simp

lemma setinterval_stores_oversized:
  "interval_minutes (config (fst (cmd_setinterval example_interpreter [huge_number] start_state)))
     = 10 ^ 310
   \<and> float_limit \<le> max 30 (10 ^ 310 * 60)"
  using py_int_huge by (simp add: cmd_setinterval_def Let_def float_limit_def)

section \<open>The command handlers: validation and canonical names\<close>

lemma py_int_abc: "py_int I ''abc'' = None"
  by (simp add: py_int_def code_points.simps cp_len_def ascii_of_def c_space_def is_digit_def)

lemma py_int_zero: "py_int I ''0'' = Some 0"
  by (cases "max_str_digits I")
     (simp_all add: py_int_def code_points.simps cp_len_def ascii_of_def c_space_def is_digit_def
        digit_val_def)

lemma py_int_fullwidth: "py_int example_interpreter fullwidth_twelve = Some 12"
  by code_simp

text \<open>
  C6: for every interpreter, \<open>/setinterval\<close> with an argument that \<open>int\<close> rejects leaves
  the whole state, the stored interval with it, as it was and replies "Invalid number";
  with an argument that \<open>int\<close> accepts it stores the larger of 1 and the integer, so 1 for
  "0" and for every integer below 1, and rewrites the configuration file. "abc" is
  rejected and "0" is the integer 0.
\<close>

theorem setinterval_validation:
  "(py_int I a = None \<longrightarrow> cmd_setinterval I (a # rest) st = (st, ''Invalid number''))
   \<and> (py_int I a = Some n \<longrightarrow>
        interval_minutes (config (fst (cmd_setinterval I (a # rest) st))) = max 1 n
        \<and> config_file (fst (cmd_setinterval I (a # rest) st))
            = Some (config (fst (cmd_setinterval I (a # rest) st))))
   \<and> (py_int I a = Some n \<and> n < 1 \<longrightarrow>
        interval_minutes (config (fst (cmd_setinterval I (a # rest) st))) = 1)
   \<and> py_int I ''abc'' = None \<and> py_int I ''0'' = Some 0"
  using py_int_abc[of I] py_int_zero[of I]
  by (simp add: cmd_setinterval_def Let_def)

theorem setinterval_validation_witness:
  "cmd_setinterval example_interpreter [''abc''] start_state = (start_state, ''Invalid number'')
   \<and> interval_minutes (config (fst (cmd_setinterval example_interpreter [''0''] start_state))) = 1
   \<and> config_file (fst (cmd_setinterval example_interpreter [''0''] start_state))
       = Some (config (fst (cmd_setinterval example_interpreter [''0''] start_state)))
   \<and> interval_minutes
         (config (fst (cmd_setinterval example_interpreter [fullwidth_twelve] start_state))) = 12"
  using setinterval_validation [of example_interpreter "''abc''" "[]" start_state 0]
    setinterval_validation [of example_interpreter "''0''" "[]" start_state 0]
    setinterval_validation [of example_interpreter fullwidth_twelve "[]" start_state 12]
    py_int_fullwidth
  by simp

text \<open>
  C7: a name without the leading @ and the same name with it are the same account to
  \<open>/add\<close>: the two calls do the same. When the account is not tracked, adding either
  spelling appends the name with its @ to the watch-list and rewrites the configuration
  file; adding either spelling again changes nothing and replies that the account is
  already tracked.
\<close>

theorem add_normalizes_account:
  assumes "\<not> startswith name ''@''"
      and "''@'' @ name \<notin> set (twitter_accounts (config st))"
      and "first = name \<or> first = ''@'' @ name"
      and "second = name \<or> second = ''@'' @ name"
  shows "cmd_add [name] st = cmd_add [''@'' @ name] st
       \<and> twitter_accounts (config (fst (cmd_add [first] st)))
           = twitter_accounts (config st) @ [''@'' @ name]
       \<and> config_file (fst (cmd_add [first] st)) = Some (config (fst (cmd_add [first] st)))
       \<and> cmd_add [second] (fst (cmd_add [first] st))
           = (fst (cmd_add [first] st), ''@'' @ name @ '' already tracked'')"
  using assms by (auto simp: cmd_add_def Let_def startswith_def)

theorem add_normalizes_account_witness:
  "twitter_accounts (config (fst (cmd_add [''foo''] start_state)))
     = [''@nasa'', ''@esa'', ''@foo'']
   \<and> cmd_add [''@foo''] (fst (cmd_add [''foo''] start_state))
       = (fst (cmd_add [''foo''] start_state), ''@foo already tracked'')"
proof -
  have h1: "\<not> startswith ''foo'' ''@''"
    by (simp add: startswith_def)
  have h2: "''@'' @ ''foo'' \<notin> set (twitter_accounts (config start_state))"
    by (simp add: start_state_def base_config_def)
  have h3: "''foo'' = ''foo'' \<or> ''foo'' = ''@'' @ ''foo''"
    by simp
  have h4: "''@foo'' = ''foo'' \<or> ''@foo'' = ''@'' @ ''foo''"
    by simp
  from add_normalizes_account [OF h1 h2 h3 h4, THEN conjunct2] show ?thesis
    by (simp add: start_state_def base_config_def)
qed

end
